theory Spec2Isabelle
  imports Complex_Main "HOL-Library.Sublist" "HOL-Library.Code_Target_Nat"
begin

section \<open>Text normalisation: \<open>SileroTTS._normalize_text\<close> (tts\_engine.py)\<close>

text \<open>
  Texts are Python \<open>str\<close> values restricted to the code points U+0000..U+00FF, one
  \<^typ>\<open>char\<close> per code point. In that range the regular-expression class \<open>\d\<close>
  matches exactly the ten ASCII digits.
\<close>

definition is_digit :: "char \<Rightarrow> bool" where
  "is_digit c = (c \<in> set ''0123456789'')"

definition digit_val :: "char \<Rightarrow> nat" where
  "digit_val c = of_char c - 48"

text \<open>
  The two library calls of the replacement callbacks are parameters of the model:
  \<open>num2words\<close> is the third-party speller (\<open>None\<close> when it raises), and
  \<open>int_max_str_digits\<close> is the interpreter's limit on the length of a digit string
  accepted by \<open>int()\<close> (\<open>None\<close> when the interpreter has no limit).
\<close>

record py_env =
  num2words :: "nat \<Rightarrow> string option"
  int_max_str_digits :: "nat option"

definition digits_value :: "string \<Rightarrow> nat" where
  "digits_value ds = foldl (\<lambda>a c. 10 * a + digit_val c) 0 ds"

text \<open>\<open>int(s)\<close> on a string of digits: \<open>None\<close> stands for the ValueError of an over-long string.\<close>

definition py_int :: "py_env \<Rightarrow> string \<Rightarrow> nat option" where
  "py_int env ds =
     (case int_max_str_digits env of
        None \<Rightarrow> Some (digits_value ds)
      | Some l \<Rightarrow> if l < length ds then None else Some (digits_value ds))"

text \<open>\<open>replace_time\<close>: both groups are converted first, then both are spelled.\<close>

definition replace_time :: "py_env \<Rightarrow> string \<Rightarrow> string \<Rightarrow> string option" where
  "replace_time env g1 g2 =
     (case py_int env g1 of None \<Rightarrow> None | Some h \<Rightarrow>
     (case py_int env g2 of None \<Rightarrow> None | Some m \<Rightarrow>
     (case num2words env h of None \<Rightarrow> None | Some hw \<Rightarrow>
     (case num2words env m of None \<Rightarrow> None | Some mw \<Rightarrow> Some (hw @ '' '' @ mw)))))"

definition replace_number :: "py_env \<Rightarrow> string \<Rightarrow> string option" where
  "replace_number env g0 =
     (case py_int env g0 of None \<Rightarrow> None | Some n \<Rightarrow> num2words env n)"

text \<open>
  A match of \<open>(\d{1,2}):(\d{2})\<close> at the head of a string: the two groups and the text
  after the match. The greedy two-digit hour is tried first; the one-digit hour is the
  only other way to match.
\<close>

fun match_time :: "string \<Rightarrow> (string \<times> string \<times> string) option" where
  "match_time (a # b # c # d # e # rest) =
     (if is_digit a \<and> is_digit b \<and> c = CHR '':'' \<and> is_digit d \<and> is_digit e
      then Some ([a, b], [d, e], rest)
      else if is_digit a \<and> b = CHR '':'' \<and> is_digit c \<and> is_digit d
      then Some ([a], [c, d], e # rest)
      else None)"
| "match_time [a, b, c, d] =
     (if is_digit a \<and> b = CHR '':'' \<and> is_digit c \<and> is_digit d
      then Some ([a], [c, d], [])
      else None)"
| "match_time _ = None"

lemma match_time_shorter:
  "match_time s = Some (g1, g2, rest) \<Longrightarrow> length rest < length s"
  by (induction s rule: match_time.induct) (auto split: if_splits)

text \<open>
  \<open>re.sub(r"(\d{1,2}):(\d{2})", replace_time, text)\<close>: scan from the left, replace each
  match and go on after it. \<open>None\<close>: the callback raised.
\<close>

function sub_time :: "py_env \<Rightarrow> string \<Rightarrow> string option" where
  "sub_time env [] = Some []"
| "sub_time env (c # cs) =
     (case match_time (c # cs) of
        Some (g1, g2, rest) \<Rightarrow>
          (case replace_time env g1 g2 of
             None \<Rightarrow> None
           | Some w \<Rightarrow> map_option ((@) w) (sub_time env rest))
      | None \<Rightarrow> map_option ((#) c) (sub_time env cs))"
  by pat_completeness auto
termination
  by (relation "measure (\<lambda>(env, s). length s)") (auto dest: match_time_shorter)

text \<open>\<open>re.sub(r"\d+", replace_number, text)\<close>: every maximal run of digits is replaced.\<close>

function sub_number :: "py_env \<Rightarrow> string \<Rightarrow> string option" where
  "sub_number env [] = Some []"
| "sub_number env (c # cs) =
     (if is_digit c then
        (case replace_number env (c # takeWhile is_digit cs) of
           None \<Rightarrow> None
         | Some w \<Rightarrow> map_option ((@) w) (sub_number env (dropWhile is_digit cs)))
      else map_option ((#) c) (sub_number env cs))"
  by pat_completeness auto
termination
  by (relation "measure (\<lambda>(env, s). length s)")
     (auto simp: less_Suc_eq_le length_dropWhile_le)

definition replace_hyphen :: "string \<Rightarrow> string" where
  "replace_hyphen text = map (\<lambda>c. if c = CHR ''-'' then CHR '' '' else c) text"

text \<open>
  The body of \<open>_normalize_text\<close>. \<open>Normalized\<close> is the \<open>return\<close> of the \<open>try\<close> block;
  \<open>Failed\<close> is the \<open>except\<close> branch, which prints a warning and returns the variable
  \<open>text\<close> as it stands: an assignment whose right-hand side raised has not happened.
\<close>

datatype norm_outcome = Normalized string | Failed string

definition normalize_outcome :: "py_env \<Rightarrow> string \<Rightarrow> norm_outcome" where
  "normalize_outcome env text =
     (case sub_time env text of
        None \<Rightarrow> Failed text
      | Some t1 \<Rightarrow>
          (case sub_number env t1 of
             None \<Rightarrow> Failed t1
           | Some t2 \<Rightarrow> Normalized (replace_hyphen t2)))"

definition normalize_text :: "py_env \<Rightarrow> string \<Rightarrow> string" where
  "normalize_text env text =
     (case normalize_outcome env text of Normalized t \<Rightarrow> t | Failed t \<Rightarrow> t)"

text \<open>
  A text without decimal digits, and a speller all of whose words are such texts.
\<close>

definition digit_free :: "string \<Rightarrow> bool" where
  "digit_free s = (\<not> list_ex is_digit s)"

definition digit_free_words :: "py_env \<Rightarrow> bool" where
  "digit_free_words env = (\<forall>n w. num2words env n = Some w \<longrightarrow> digit_free w)"

text \<open>
  Notions for the proofs about times: \<open>mt s\<close> says that a time matches at the head of
  \<open>s\<close>, \<open>match_string m\<close> that \<open>m\<close> is exactly such a match, and \<open>time_free s\<close> that no
  time matches anywhere in \<open>s\<close>.
\<close>

definition mt :: "string \<Rightarrow> bool" where
  "mt s = (match_time s \<noteq> None)"

definition match_string :: "string \<Rightarrow> bool" where
  "match_string m =
     ((\<exists>a b d e. m = [a, b, CHR '':'', d, e] \<and> is_digit a \<and> is_digit b \<and> is_digit d \<and> is_digit e)
      \<or> (\<exists>a c d. m = [a, CHR '':'', c, d] \<and> is_digit a \<and> is_digit c \<and> is_digit d))"

fun time_free :: "string \<Rightarrow> bool" where
  "time_free [] = True"
| "time_free (c # cs) = (match_time (c # cs) = None \<and> time_free cs)"

subsection \<open>An instance of the speller: English cardinals\<close>

text \<open>
  The parameter \<open>num2words\<close> stands for a package that is not part of the repository.
  The instance below prints English cardinals the way that package does ("twenty-one",
  "two thousand, four hundred and twenty-six", "one million and one") and raises from
  \<open>10 ^ 306\<close> on, the first number the package has no word for. It serves to run the
  normaliser on concrete texts; the properties below are proved for every speller.
  \<open>below_thousand\<close> spells the last three digits of its argument.
\<close>

definition low_numwords :: "string list" where
  "low_numwords =
     [''zero'', ''one'', ''two'', ''three'', ''four'', ''five'', ''six'', ''seven'',
      ''eight'', ''nine'', ''ten'', ''eleven'', ''twelve'', ''thirteen'', ''fourteen'',
      ''fifteen'', ''sixteen'', ''seventeen'', ''eighteen'', ''nineteen'']"

definition tens_numwords :: "string list" where
  "tens_numwords =
     [''zero'', ''ten'', ''twenty'', ''thirty'', ''forty'', ''fifty'', ''sixty'', ''seventy'',
      ''eighty'', ''ninety'']"

definition below_hundred :: "nat \<Rightarrow> string" where
  "below_hundred n =
     (if n mod 100 < 20 then low_numwords ! (n mod 100)
      else tens_numwords ! (n div 10 mod 10) @
           (if n mod 10 = 0 then [] else ''-'' @ low_numwords ! (n mod 10)))"

definition below_thousand :: "nat \<Rightarrow> string" where
  "below_thousand n =
     (if n div 100 mod 10 = 0 then below_hundred n
      else low_numwords ! (n div 100 mod 10) @ '' hundred'' @
           (if n mod 100 = 0 then [] else '' and '' @ below_hundred n))"

text \<open>
  The words of the powers of one thousand, largest first: "centillion" for \<open>10 ^ 303\<close>
  down to "million", then "thousand".
\<close>

definition high_numwords :: "string list" where
  "high_numwords =
     ''cent'' #
     rev (concat (map (\<lambda>t. map (\<lambda>u. u @ t)
            ['''', ''un'', ''duo'', ''tre'', ''quattuor'', ''quin'', ''sex'', ''sept'',
             ''octo'', ''novem''])
          [''dec'', ''vigint'', ''trigint'', ''quadragint'', ''quinquagint'', ''sexagint'',
           ''septuagint'', ''octogint'', ''nonagint''])) @
     [''non'', ''oct'', ''sept'', ''sext'', ''quint'', ''quadr'', ''tr'', ''b'', ''m'']"

fun scales_from :: "nat \<Rightarrow> string list \<Rightarrow> (nat \<times> string) list" where
  "scales_from v [] = []"
| "scales_from v (w # ws) = (v, w) # scales_from (1000 * v) ws"

definition scale_words :: "(nat \<times> string) list" where
  "scale_words =
     rev (scales_from 1000 (''thousand'' # rev (map (\<lambda>w. w @ ''illion'') high_numwords)))"

text \<open>
  A number is cut into one group per power of one thousand; the groups that are not zero
  are spelled and joined by ", ", or by " and " before a last group below one hundred.
\<close>

fun split_groups :: "(nat \<times> string) list \<Rightarrow> nat \<Rightarrow> (nat \<times> string) list" where
  "split_groups [] n = [(n, [])]"
| "split_groups ((v, w) # scs) n = (n div v, '' '' @ w) # split_groups scs (n mod v)"

definition group_text :: "nat \<times> string \<Rightarrow> string" where
  "group_text g = below_thousand (fst g) @ snd g"

definition group_sep :: "nat \<times> string \<Rightarrow> string" where
  "group_sep g = (if snd g = [] \<and> fst g < 100 then '' and '' else '', '')"

fun join_groups :: "(nat \<times> string) list \<Rightarrow> string" where
  "join_groups [] = ''zero''"
| "join_groups [g] = group_text g"
| "join_groups (g # h # gs) = group_text g @ group_sep h @ join_groups (h # gs)"

definition num2words_en :: "nat \<Rightarrow> string option" where
  "num2words_en n =
     (if n < 10 ^ 306
      then Some (join_groups (filter (\<lambda>g. 0 < fst g) (split_groups scale_words n)))
      else None)"

text \<open>The surroundings with this speller and the default limit of \<open>int()\<close>.\<close>

definition en_env :: py_env where
  "en_env = \<lparr>num2words = num2words_en, int_max_str_digits = Some 4300\<rparr>"

section \<open>Announcement generation: \<open>AnnouncementGenerator\<close> (llm\_generator.py)\<close>

text \<open>
  A schedule record is a Python \<open>dict\<close>; its values are the kinds of value that
  \<open>generate_train_departures\<close> stores (strings, integers, booleans, \<open>None\<close>).
\<close>

datatype pyval = PyStr string | PyInt int | PyBool bool | PyNone

type_synonym train_data = "string \<rightharpoonup> pyval"

datatype py_error = KeyError string | TypeError | AttributeError

definition digit_char :: "nat \<Rightarrow> char" where
  "digit_char k = ''0123456789'' ! k"

fun show_nat :: "nat \<Rightarrow> string" where
  "show_nat n = (if n < 10 then [digit_char n] else show_nat (n div 10) @ [digit_char (n mod 10)])"

definition show_int :: "int \<Rightarrow> string" where
  "show_int i = (if i < 0 then ''-'' @ show_nat (nat (- i)) else show_nat (nat i))"

text \<open>The text an f-string puts in for a value.\<close>

fun py_str :: "pyval \<Rightarrow> string" where
  "py_str (PyStr s) = s"
| "py_str (PyInt i) = show_int i"
| "py_str (PyBool b) = (if b then ''True'' else ''False'')"
| "py_str PyNone = ''None''"

text \<open>\<open>train_data[key]\<close>\<close>

definition lookup :: "train_data \<Rightarrow> string \<Rightarrow> py_error + pyval" where
  "lookup td key = (case td key of None \<Rightarrow> Inl (KeyError key) | Some v \<Rightarrow> Inr v)"

text \<open>\<open>value > 0\<close>\<close>

fun gt_zero :: "pyval \<Rightarrow> py_error + bool" where
  "gt_zero (PyInt i) = Inr (0 < i)"
| "gt_zero (PyBool b) = Inr b"
| "gt_zero (PyStr s) = Inl TypeError"
| "gt_zero PyNone = Inl TypeError"

definition bind_err :: "'e + 'a \<Rightarrow> ('a \<Rightarrow> 'e + 'b) \<Rightarrow> 'e + 'b" where
  "bind_err r f = (case r of Inl e \<Rightarrow> Inl e | Inr x \<Rightarrow> f x)"

definition nl :: string where
  "nl = [CHR 0x0A]"

text \<open>
  The user prompt, built before the \<open>try\<close> block: a missing key or an incomparable
  delay raises out of \<open>generate_announcement\<close>.
\<close>

definition build_prompt :: "train_data \<Rightarrow> py_error + string" where
  "build_prompt td =
     bind_err (lookup td ''train_number'') (\<lambda>tn.
     bind_err (lookup td ''operator'') (\<lambda>op.
     bind_err (lookup td ''destination'') (\<lambda>dst.
     bind_err (lookup td ''origin'') (\<lambda>org.
     bind_err (lookup td ''scheduled_time'') (\<lambda>tm.
     bind_err (lookup td ''platform'') (\<lambda>pl.
     bind_err (lookup td ''delay_minutes'') (\<lambda>dl.
     bind_err (gt_zero dl) (\<lambda>delayed.
       Inr (''Data:'' @ nl @
            ''Train Number: '' @ py_str tn @ nl @
            ''Operator: '' @ py_str op @ nl @
            ''Destination: '' @ py_str dst @ nl @
            ''Origin: '' @ py_str org @ nl @
            ''Time: '' @ py_str tm @ nl @
            ''Platform: '' @ py_str pl @ nl @
            (if delayed then ''STATUS: DELAYED by '' @ py_str dl @ '' minutes''
             else ''STATUS: ON TIME'') @
            nl @ nl @ ''Generate station announcement in English:'')))))))))"

text \<open>The sentence of the \<open>except\<close> branch.\<close>

definition fallback_sentence :: "train_data \<Rightarrow> py_error + string" where
  "fallback_sentence td =
     bind_err (lookup td ''train_number'') (\<lambda>tn.
     bind_err (lookup td ''destination'') (\<lambda>dst.
       Inr (''Attention. Train '' @ py_str tn @ '' to '' @ py_str dst @ '' is delayed.'')))"

text \<open>
  The backend. A streamed completion is a finite sequence of pulls; a pull yields a
  chunk or raises. \<open>Delta None\<close> is a chunk whose delta has no \<open>content\<close> key;
  \<open>Malformed\<close> is a chunk on which the loop body raises (a missing \<open>choices\<close> or
  \<open>delta\<close>, a content that is not a string).
\<close>

datatype chunk = Delta "string option" | Malformed

datatype stream_event = Chunk chunk | StreamError

datatype completion = CallRaises | Stream "stream_event list"

text \<open>
  What the generator finds outside itself: whether the model file is there, whether
  \<open>download_model\<close> and the \<open>Llama\<close> constructor succeed, and what
  \<open>create_chat_completion\<close> answers to a user prompt (the system prompt, \<open>max_tokens\<close>
  and \<open>temperature\<close> are constants of the call).
\<close>

record llm_world =
  model_downloaded :: bool
  download_ok :: bool
  llama_ok :: bool
  create_chat_completion :: "string \<Rightarrow> completion"

text \<open>\<open>load_model\<close> on a generator whose \<open>llm\<close> is unset: its result, which is also the new \<open>llm\<close>.\<close>

definition load_model :: "llm_world \<Rightarrow> bool" where
  "load_model w =
     (if \<not> model_downloaded w \<and> \<not> download_ok w then False else llama_ok w)"

text \<open>\<open>str.strip()\<close> on code points below 256.\<close>

definition is_space :: "char \<Rightarrow> bool" where
  "is_space c =
     (let k = (of_char c :: nat)
      in (9 \<le> k \<and> k \<le> 13) \<or> (28 \<le> k \<and> k \<le> 32) \<or> k = 133 \<or> k = 160)"

definition py_strip :: "string \<Rightarrow> string" where
  "py_strip s = rev (dropWhile is_space (rev (dropWhile is_space s)))"

text \<open>
  The loop \<open>for chunk in stream\<close>. The callback is called once per chunk received,
  before the chunk is looked at; \<open>f k\<close> is what its call number \<open>k\<close> returns. The
  loop carries \<open>full_text\<close>, the number of chunks received and the callback's answers.
\<close>

datatype loop_end = Finished string | Interrupted | LoopRaised

fun consume ::
  "(nat \<Rightarrow> bool) option \<Rightarrow> stream_event list \<Rightarrow> string \<Rightarrow> nat \<Rightarrow> bool list \<Rightarrow>
   loop_end \<times> nat \<times> bool list" where
  "consume cb [] full n chk = (Finished full, n, chk)"
| "consume cb (StreamError # es) full n chk = (LoopRaised, n, chk)"
| "consume cb (Chunk c # es) full n chk =
     (let stop = (case cb of None \<Rightarrow> False | Some f \<Rightarrow> f (length chk));
          chk' = (case cb of None \<Rightarrow> chk | Some f \<Rightarrow> chk @ [f (length chk)])
      in if stop then (Interrupted, Suc n, chk')
         else (case c of
                 Malformed \<Rightarrow> (LoopRaised, Suc n, chk')
               | Delta None \<Rightarrow> consume cb es full (Suc n) chk'
               | Delta (Some s) \<Rightarrow> consume cb es (full @ s) (Suc n) chk'))"

record gen_out =
  result :: string
  llm_after :: bool
  completions :: nat
  pulled :: nat
  checks :: "bool list"

text \<open>
  \<open>generate_announcement\<close>, for a generator whose model is loaded (\<open>llm\<close>) or not.
  \<open>Inl\<close>: the exception that leaves the function. The output records the returned
  string, whether the model is loaded afterwards, the calls of
  \<open>create_chat_completion\<close>, the chunks received and the answers of the callback.
\<close>

definition generate_announcement ::
  "llm_world \<Rightarrow> bool \<Rightarrow> train_data \<Rightarrow> (nat \<Rightarrow> bool) option \<Rightarrow> py_error + gen_out" where
  "generate_announcement w llm td cb =
     (if \<not> llm \<and> \<not> load_model w
      then Inr \<lparr>result = ''System unavailable.'', llm_after = False, completions = 0,
                pulled = 0, checks = []\<rparr>
      else
        bind_err (build_prompt td) (\<lambda>user_prompt.
          (case create_chat_completion w user_prompt of
             CallRaises \<Rightarrow>
               bind_err (fallback_sentence td) (\<lambda>fb.
                 Inr \<lparr>result = fb, llm_after = True, completions = 1, pulled = 0,
                      checks = []\<rparr>)
           | Stream es \<Rightarrow>
               (case consume cb es [] 0 [] of
                  (Finished full, n, chk) \<Rightarrow>
                    Inr \<lparr>result = py_strip full, llm_after = True, completions = 1,
                         pulled = n, checks = chk\<rparr>
                | (Interrupted, n, chk) \<Rightarrow>
                    Inr \<lparr>result = ''[Interrupted]'', llm_after = True, completions = 1,
                         pulled = n, checks = chk\<rparr>
                | (LoopRaised, n, chk) \<Rightarrow>
                    bind_err (fallback_sentence td) (\<lambda>fb.
                      Inr \<lparr>result = fb, llm_after = True, completions = 1, pulled = n,
                           checks = chk\<rparr>)))))"

section \<open>Synthesis and playback: \<open>SileroTTS.speak\<close> and \<open>SileroTTS.stop\<close> (tts\_engine.py)\<close>

text \<open>The calls made on the sound device, in order.\<close>

datatype dev_op = SdPlay "real list" nat | SdWait | SdStop

record tts_state =
  model :: bool
  playback_active :: bool
  device :: "dev_op list"

text \<open>
  What the engine finds outside itself: the result of \<open>download_model\<close>, whether the
  package loads, the samples \<open>apply_tts(...).numpy()\<close> gives for a text (\<open>None\<close> when
  synthesis raises), and whether \<open>sd.play\<close> and \<open>sd.wait\<close> return or raise.
\<close>

record tts_world =
  tts_env :: py_env
  model_file_ok :: bool
  package_ok :: bool
  apply_tts :: "string \<Rightarrow> real list option"
  play_ok :: bool
  wait_ok :: bool

definition sample_rate :: nat where
  "sample_rate = 48000"

definition silence :: "real list" where
  "silence = replicate (sample_rate div 2) 0"

definition tts_load_model :: "tts_world \<Rightarrow> bool" where
  "tts_load_model w = (model_file_ok w \<and> package_ok w)"

definition speak :: "tts_world \<Rightarrow> string \<Rightarrow> bool \<Rightarrow> tts_state \<Rightarrow> tts_state" where
  "speak w text blocking s =
     (if \<not> model s \<and> \<not> tts_load_model w then s
      else
        (let s1 = s\<lparr>model := True\<rparr>
         in case apply_tts w (normalize_text (tts_env w) text) of
              None \<Rightarrow> s1\<lparr>playback_active := False\<rparr>
            | Some audio \<Rightarrow>
                if \<not> play_ok w then s1\<lparr>playback_active := False\<rparr>
                else
                  (let s2 = s1\<lparr>playback_active := True,
                               device := device s1 @ [SdPlay (audio @ silence) sample_rate]\<rparr>
                   in if blocking
                      then (if wait_ok w
                            then s2\<lparr>playback_active := False,
                                    device := device s2 @ [SdWait]\<rparr>
                            else s2\<lparr>playback_active := False\<rparr>)
                      else s2)))"

definition stop :: "tts_state \<Rightarrow> tts_state" where
  "stop s =
     (if playback_active s
      then s\<lparr>device := device s @ [SdStop], playback_active := False\<rparr>
      else s)"

section \<open>The batch: \<open>speak_thread\<close> of \<open>RailwayAnnouncerApp._on_speak_click\<close> (main.py)\<close>

text \<open>
  The status messages of \<open>speak_thread\<close>: \<open>Generating i k\<close> is
  "Generating announcement i/k...", \<open>Speaking i k\<close> is "Speaking i/k...",
  \<open>StoppedByUser\<close> is "Stopped by user", \<open>AllCompleted\<close> is "All announcements
  completed", \<open>ErrorStatus e\<close> is "Error: e".
\<close>

datatype status = Generating nat nat | Speaking nat nat | StoppedByUser | AllCompleted
  | ErrorStatus py_error

text \<open>
  The application state the thread works on. \<open>llm_generator\<close> and \<open>tts_engine\<close> are
  \<open>None\<close> until the initialisation thread has created them. \<open>reads\<close> counts the reads
  of \<open>should_stop\<close> made so far; the other fields record, in order, the status
  messages, the announcements shown, the records handed to the generator and the
  texts handed to the engine.
\<close>

record app_state =
  llm_generator :: "bool option"
  tts_engine :: "tts_state option"
  is_speaking :: bool
  reads :: nat
  statuses :: "status list"
  announcements :: "string list"
  generated :: "nat list"
  spoken :: "(nat \<times> string) list"
  sleeps :: nat

text \<open>
  The surroundings of one batch: \<open>should_stop t\<close> is the value the worker's read number
  \<open>t\<close> of the flag finds (the flag is written by the controller only), and the worlds
  the generator and the engine find while record \<open>i\<close> is handled.
\<close>

record batch_world =
  should_stop :: "nat \<Rightarrow> bool"
  llm_at :: "nat \<Rightarrow> llm_world"
  tts_at :: "nat \<Rightarrow> tts_world"

datatype loop_result = Done app_state | Raised py_error app_state

text \<open>One pass of the loop body for record \<open>i\<close> of \<open>k\<close>: \<open>Inl\<close> is a \<open>break\<close>.\<close>

definition announce_one ::
  "batch_world \<Rightarrow> nat \<Rightarrow> nat \<Rightarrow> train_data \<Rightarrow> app_state \<Rightarrow> loop_result + app_state" where
  "announce_one w k i train s =
     (if should_stop w (reads s) then Inl (Done (s\<lparr>reads := Suc (reads s)\<rparr>))
      else
        (let s1 = s\<lparr>reads := Suc (reads s), statuses := statuses s @ [Generating i k]\<rparr>
         in case llm_generator s1 of
              None \<Rightarrow> Inl (Raised AttributeError s1)
            | Some llm \<Rightarrow>
                (let s2 = s1\<lparr>generated := generated s1 @ [i]\<rparr>
                 in case generate_announcement (llm_at w i) llm train
                           (Some (\<lambda>n. should_stop w (reads s2 + n))) of
                      Inl e \<Rightarrow> Inl (Raised e s2)
                    | Inr out \<Rightarrow>
                        (let s3 = s2\<lparr>llm_generator := Some (llm_after out),
                                     reads := reads s2 + length (checks out)\<rparr>
                         in if should_stop w (reads s3)
                            then Inl (Done (s3\<lparr>reads := Suc (reads s3)\<rparr>))
                            else
                              (let s4 = s3\<lparr>reads := Suc (reads s3),
                                           announcements := announcements s3 @ [result out],
                                           statuses := statuses s3 @ [Speaking i k]\<rparr>
                               in case tts_engine s4 of
                                    None \<Rightarrow> Inl (Raised AttributeError s4)
                                  | Some ts \<Rightarrow>
                                      (let s5 = s4\<lparr>spoken := spoken s4 @ [(i, result out)],
                                                   tts_engine :=
                                                     Some (speak (tts_at w i) (result out) True ts)\<rparr>
                                       in if should_stop w (reads s5)
                                          then Inl (Done (s5\<lparr>reads := Suc (reads s5)\<rparr>))
                                          else Inr (s5\<lparr>reads := Suc (reads s5),
                                                       sleeps := Suc (sleeps s5)\<rparr>)))))))"

fun announce_loop ::
  "batch_world \<Rightarrow> nat \<Rightarrow> nat \<Rightarrow> train_data list \<Rightarrow> app_state \<Rightarrow> loop_result" where
  "announce_loop w k i [] s = Done s"
| "announce_loop w k i (train # rest) s =
     (case announce_one w k i train s of
        Inl r \<Rightarrow> r
      | Inr s' \<Rightarrow> announce_loop w k (Suc i) rest s')"

definition speak_thread :: "batch_world \<Rightarrow> train_data list \<Rightarrow> app_state \<Rightarrow> app_state" where
  "speak_thread w trains s =
     (let trains_to_announce = take 3 trains;
          s' = (case announce_loop w (length trains_to_announce) 1 trains_to_announce s of
                  Done s1 \<Rightarrow>
                    s1\<lparr>reads := Suc (reads s1),
                       statuses := statuses s1 @
                         [if should_stop w (reads s1) then StoppedByUser else AllCompleted]\<rparr>
                | Raised e s1 \<Rightarrow> s1\<lparr>statuses := statuses s1 @ [ErrorStatus e]\<rparr>)
      in s'\<lparr>is_speaking := False\<rparr>)"

subsection \<open>Notions and concrete values for the statements below\<close>

text \<open>
  \<open>stream_raises\<close>: the streamed generation ends in the \<open>except\<close> branch, because the
  call raises or because the loop does. \<open>py_in sub s\<close> is Python's \<open>sub in s\<close>.
\<close>

definition stream_raises :: "llm_world \<Rightarrow> (nat \<Rightarrow> bool) option \<Rightarrow> string \<Rightarrow> bool" where
  "stream_raises w cb user_prompt =
     (case create_chat_completion w user_prompt of
        CallRaises \<Rightarrow> True
      | Stream es \<Rightarrow> fst (consume cb es [] 0 []) = LoopRaised)"

fun py_in :: "string \<Rightarrow> string \<Rightarrow> bool" where
  "py_in sub [] = (sub = [])"
| "py_in sub (c # cs) = (prefix sub (c # cs) \<or> py_in sub cs)"

text \<open>
  Three ways the cancellation flag can read over time, a schedule record of an on-time
  train, and three backends: one that streams "Attention please. " in four chunks, one
  whose call raises, and one whose model can be neither found nor downloaded.
\<close>

definition always_stop :: "nat \<Rightarrow> bool" where
  "always_stop t = True"

definition never_stop :: "nat \<Rightarrow> bool" where
  "never_stop t = False"

definition stop_from :: "nat \<Rightarrow> nat \<Rightarrow> bool" where
  "stop_from k t = (k \<le> t)"

definition demo_record :: train_data where
  "demo_record =
     [''train_number'' \<mapsto> PyStr ''#2426'', ''train_type'' \<mapsto> PyStr ''Regional'',
      ''operator'' \<mapsto> PyStr ''Amtrak'', ''origin'' \<mapsto> PyStr ''Houston'',
      ''destination'' \<mapsto> PyStr ''Las Vegas'', ''scheduled_time'' \<mapsto> PyStr ''21:05'',
      ''delay_minutes'' \<mapsto> PyInt 0, ''platform'' \<mapsto> PyInt 3, ''track'' \<mapsto> PyNone,
      ''is_delayed'' \<mapsto> PyBool False]"

definition demo_stream :: "stream_event list" where
  "demo_stream =
     [Chunk (Delta None), Chunk (Delta (Some ''Attention '')),
      Chunk (Delta (Some ''please. '')), Chunk (Delta None)]"

definition demo_llm :: llm_world where
  "demo_llm = \<lparr>model_downloaded = True, download_ok = True, llama_ok = True,
               create_chat_completion = (\<lambda>p. Stream demo_stream)\<rparr>"

definition failing_llm :: llm_world where
  "failing_llm = \<lparr>model_downloaded = True, download_ok = True, llama_ok = True,
                  create_chat_completion = (\<lambda>p. CallRaises)\<rparr>"

definition absent_llm :: llm_world where
  "absent_llm = \<lparr>model_downloaded = False, download_ok = False, llama_ok = False,
                 create_chat_completion = (\<lambda>p. Stream demo_stream)\<rparr>"

text \<open>
  \<open>synthesis_fails\<close>: on this text the engine does not get as far as playing, because
  the model is missing and cannot be loaded, or synthesis raises, or \<open>sd.play\<close> raises.
\<close>

definition synthesis_fails :: "tts_world \<Rightarrow> string \<Rightarrow> tts_state \<Rightarrow> bool" where
  "synthesis_fails w text s =
     ((\<not> model s \<and> \<not> tts_load_model w) \<or>
      apply_tts w (normalize_text (tts_env w) text) = None \<or> \<not> play_ok w)"

text \<open>
  An engine that synthesises and plays, one whose synthesis raises, an idle and a
  playing engine state, the application with its two components created and before
  they are, and a batch in which the engine fails on the second record.
\<close>

definition demo_tts :: tts_world where
  "demo_tts = \<lparr>tts_env = en_env, model_file_ok = True, package_ok = True,
               apply_tts = (\<lambda>t. Some []), play_ok = True, wait_ok = True\<rparr>"

definition mute_tts :: tts_world where
  "mute_tts = \<lparr>tts_env = en_env, model_file_ok = True, package_ok = True,
               apply_tts = (\<lambda>t. None), play_ok = True, wait_ok = True\<rparr>"

definition idle_tts :: tts_state where
  "idle_tts = \<lparr>model = True, playback_active = False, device = []\<rparr>"

definition playing_tts :: tts_state where
  "playing_tts = \<lparr>model = True, playback_active = True, device = [SdPlay silence sample_rate]\<rparr>"

definition demo_app :: app_state where
  "demo_app = \<lparr>llm_generator = Some True, tts_engine = Some idle_tts, is_speaking = True,
               reads = 0, statuses = [], announcements = [], generated = [], spoken = [],
               sleeps = 0\<rparr>"

definition early_app :: app_state where
  "early_app = \<lparr>llm_generator = None, tts_engine = None, is_speaking = True,
                reads = 0, statuses = [], announcements = [], generated = [], spoken = [],
                sleeps = 0\<rparr>"

definition demo_batch :: "(nat \<Rightarrow> bool) \<Rightarrow> batch_world" where
  "demo_batch flag = \<lparr>should_stop = flag, llm_at = (\<lambda>i. demo_llm),
                      tts_at = (\<lambda>i. if i = 2 then mute_tts else demo_tts)\<rparr>"

definition demo_trains :: "train_data list" where
  "demo_trains = [demo_record, demo_record, demo_record, demo_record]"

section \<open>The three rewrites as the specification words them\<close>

text \<open>
  A second wording of the normaliser, written from the specification and not from the
  code, to be compared with \<open>normalize_outcome\<close>. The widths of the hour that count as a
  time are a parameter: the specification's \<open>HH:MM\<close> is the list \<open>[2]\<close>.
\<close>

definition spell :: "py_env \<Rightarrow> string \<Rightarrow> string option" where
  "spell env ds = Option.bind (py_int env ds) (num2words env)"

text \<open>
  The width of the hour of a time at the head of a text: digits of that width, a colon,
  two digits. The first width of the list that fits is taken.
\<close>

definition time_at :: "nat list \<Rightarrow> string \<Rightarrow> nat option" where
  "time_at ws s =
     find (\<lambda>k. 0 < k \<and> k + 3 \<le> length s \<and> list_all is_digit (take k s) \<and>
               s ! k = CHR '':'' \<and> list_all is_digit (take 2 (drop (Suc k) s))) ws"

text \<open>
  Rule 1, from the left: a time becomes hour, space, minute and the characters it
  covered are skipped (\<open>skip\<close> counts those still to pass over); any other character
  stays.
\<close>

fun spec_times :: "nat list \<Rightarrow> py_env \<Rightarrow> nat \<Rightarrow> string \<Rightarrow> string option" where
  "spec_times ws env skip [] = Some []"
| "spec_times ws env (Suc skip) (c # cs) = spec_times ws env skip cs"
| "spec_times ws env 0 (c # cs) =
     (case time_at ws (c # cs) of
        None \<Rightarrow> map_option ((#) c) (spec_times ws env 0 cs)
      | Some k \<Rightarrow>
          (case (spell env (take k (c # cs)), spell env (take 2 (drop (Suc k) (c # cs)))) of
             (Some hw, Some mw) \<Rightarrow>
               map_option ((@) (hw @ '' '' @ mw)) (spec_times ws env (k + 2) cs)
           | _ \<Rightarrow> None))"

text \<open>
  Rule 2: the text is cut into its maximal runs of digits and its other characters, one
  by one; every run of digits is spelled.
\<close>

fun digit_runs :: "string \<Rightarrow> string list" where
  "digit_runs [] = []"
| "digit_runs (c # cs) =
     (case digit_runs cs of
        [] \<Rightarrow> [[c]]
      | r # rs \<Rightarrow> if is_digit c \<and> list_all is_digit r then (c # r) # rs else [c] # r # rs)"

definition spec_numbers :: "py_env \<Rightarrow> string \<Rightarrow> string option" where
  "spec_numbers env s =
     map_option concat
       (those (map (\<lambda>r. if list_all is_digit r then spell env r else Some r) (digit_runs s)))"

text \<open>Rule 3: every hyphen becomes a space.\<close>

definition spec_hyphens :: "string \<Rightarrow> string" where
  "spec_hyphens s = map (\<lambda>c. if c = CHR ''-'' then CHR '' '' else c) s"

definition spec_normalize :: "nat list \<Rightarrow> py_env \<Rightarrow> string \<Rightarrow> string option" where
  "spec_normalize ws env t =
     Option.bind (spec_times ws env 0 t) (\<lambda>t1. map_option spec_hyphens (spec_numbers env t1))"

text \<open>The outcome of the \<open>try\<close> block alone: the text returned there, if it is reached.\<close>

definition normalized :: "py_env \<Rightarrow> string \<Rightarrow> string option" where
  "normalized env t = (case normalize_outcome env t of Normalized t' \<Rightarrow> Some t' | Failed t' \<Rightarrow> None)"

section \<open>The normaliser: digits and idempotence\<close>

lemma digit_free_simps [simp]:
  "digit_free []"
  "digit_free (c # cs) = (\<not> is_digit c \<and> digit_free cs)"
  "digit_free (xs @ ys) = (digit_free xs \<and> digit_free ys)"
  by (auto simp: digit_free_def)

lemma not_digit_chars [simp]:
  "\<not> is_digit CHR '':''" "\<not> is_digit CHR '' ''" "\<not> is_digit CHR ''-''"
  by (simp_all add: is_digit_def)

lemma replace_number_digit_free:
  "digit_free_words env \<Longrightarrow> replace_number env g = Some w \<Longrightarrow> digit_free w"
  by (auto simp: replace_number_def digit_free_words_def split: option.splits)

lemma replace_time_digit_free:
  "digit_free_words env \<Longrightarrow> replace_time env g1 g2 = Some w \<Longrightarrow> digit_free w"
  by (auto simp: replace_time_def digit_free_words_def split: option.splits)

lemma replace_time_has_space:
  "replace_time env g1 g2 = Some w \<Longrightarrow> CHR '' '' \<in> set w"
  by (auto simp: replace_time_def split: option.splits)

lemma sub_number_digit_free:
  "digit_free_words env \<Longrightarrow> sub_number env t = Some t2 \<Longrightarrow> digit_free t2"
proof (induction env t arbitrary: t2 rule: sub_number.induct)
  case (1 env)
  then show ?case by simp
next
  case (2 env c cs)
  show ?case
  proof (cases "is_digit c")
    case True
    with "2.prems" obtain w r where
      w: "replace_number env (c # takeWhile is_digit cs) = Some w" and
      r: "sub_number env (dropWhile is_digit cs) = Some r" and t2: "t2 = w @ r"
      by (auto split: option.splits)
    from "2.IH"(1) [OF True w "2.prems"(1) r] replace_number_digit_free [OF "2.prems"(1) w] t2
    show ?thesis by simp
  next
    case False
    with "2.prems" obtain r where r: "sub_number env cs = Some r" and t2: "t2 = c # r"
      by auto
    from "2.IH"(2) [OF False "2.prems"(1) r] False t2 show ?thesis by simp
  qed
qed

lemma replace_hyphen_digit_free: "digit_free t \<Longrightarrow> digit_free (replace_hyphen t)"
  by (induction t) (auto simp: replace_hyphen_def)

text \<open>
  Claim C3, as the code has it (digits after normalisation). Let \<open>num2words\<close> spell
  without digits. Whenever \<open>_normalize_text\<close> completes its \<open>try\<close> block, its output
  contains no decimal digit. Nothing is promised about ':': only a ':' inside a time
  match is removed.
\<close>

theorem normalize_no_digit:
  "digit_free_words env \<Longrightarrow> normalize_outcome env t = Normalized t' \<Longrightarrow>
   \<not> list_ex is_digit (normalize_text env t)"
  using sub_number_digit_free replace_hyphen_digit_free
  by (auto simp: normalize_outcome_def normalize_text_def digit_free_def split: option.splits)

lemma mt_imp_match_string: "mt s \<Longrightarrow> \<exists>m. match_string m \<and> prefix m s"
proof (induction s rule: match_time.induct)
  case (1 a b c d e rest)
  then show ?case
    apply (auto simp: mt_def split: if_splits)
     apply (rule exI [of _ "[a, b, CHR '':'', d, e]"])
     apply (simp add: match_string_def)
    apply (rule exI [of _ "[a, CHR '':'', c, d]"])
    apply (simp add: match_string_def)
    done
next
  case (2 a b c d)
  then show ?case
    apply (auto simp: mt_def split: if_splits)
    apply (rule exI [of _ "[a, CHR '':'', c, d]"])
    apply (simp add: match_string_def)
    done
qed (simp_all add: mt_def)

lemma match_string_imp_mt: "match_string m \<Longrightarrow> mt (m @ r)"
  by (cases r) (auto simp: match_string_def mt_def)

lemma mt_iff: "mt s \<longleftrightarrow> (\<exists>m. match_string m \<and> prefix m s)"
  using mt_imp_match_string match_string_imp_mt by (auto simp: prefix_def)

lemma match_string_last: "match_string m \<Longrightarrow> m \<noteq> [] \<and> is_digit (last m)"
  by (auto simp: match_string_def)

lemma match_string_chars: "match_string m \<Longrightarrow> c \<in> set m \<Longrightarrow> is_digit c \<or> c = CHR '':''"
  by (auto simp: match_string_def)

lemma match_not_through:
  assumes m: "match_string m" and p: "prefix m (pre @ w @ r)"
    and w: "digit_free w" and sp: "CHR '' '' \<in> set w"
  shows "prefix m pre"
proof (rule ccontr)
  assume np: "\<not> prefix m pre"
  with p obtain us where us: "m = pre @ us" "prefix us (w @ r)"
    by (auto simp: prefix_append)
  from np us have ne: "us \<noteq> []" by auto
  from us(2) consider "prefix us w" | vs where "us = w @ vs"
    by (auto simp: prefix_append)
  then show False
  proof cases
    case 1
    from ne us(1) have "last m = last us" by simp
    moreover from ne have "last us \<in> set us" by simp
    with 1 have "last us \<in> set w" by (auto simp: prefix_def)
    ultimately have "last m \<in> set w" by simp
    with w have "\<not> is_digit (last m)" by (auto simp: digit_free_def list_ex_iff)
    with match_string_last [OF m] show False by simp
  next
    case 2
    with us(1) sp have "CHR '' '' \<in> set m" by simp
    from match_string_chars [OF m this] show False by simp
  qed
qed

lemma time_free_sub_time: "time_free s \<Longrightarrow> sub_time env s = Some s"
  by (induction s) auto

lemma mt_head_digit: "mt (c # cs) \<Longrightarrow> is_digit c"
  by (induction "c # cs" rule: match_time.induct) (auto simp: mt_def split: if_splits)

lemma digit_free_time_free_append:
  "digit_free w \<Longrightarrow> time_free r \<Longrightarrow> time_free (w @ r)"
proof (induction w)
  case Nil
  then show ?case by simp
next
  case (Cons c w)
  then have "\<not> mt (c # w @ r)" using mt_head_digit by auto
  then have "match_time (c # w @ r) = None" unfolding mt_def by blast
  with Cons show ?case by simp
qed

lemma digit_free_time_free: "digit_free w \<Longrightarrow> time_free w"
  using digit_free_time_free_append [of w "[]"] by simp

lemma sub_time_stable_aux:
  "digit_free_words env \<Longrightarrow> sub_time env t = Some t1 \<Longrightarrow>
   time_free t1 \<and> (\<forall>pre. mt (pre @ t1) \<longrightarrow> mt (pre @ t))"
proof (induction env t arbitrary: t1 rule: sub_time.induct)
  case (1 env)
  then show ?case by simp
next
  case (2 env c cs)
  show ?case
  proof (cases "match_time (c # cs)")
    case None
    with "2.prems" obtain r where r: "sub_time env cs = Some r" and t1: "t1 = c # r"
      by auto
    from "2.IH"(1) [OF None "2.prems"(1) r]
    have tf: "time_free r" and g: "\<And>pre. mt (pre @ r) \<Longrightarrow> mt (pre @ cs)" by auto
    have g': "mt (pre @ c # r) \<Longrightarrow> mt (pre @ c # cs)" for pre
      using g [of "pre @ [c]"] by simp
    from g' [of "[]"] None have "match_time (c # r) = None" unfolding mt_def by fastforce
    with tf g' t1 show ?thesis by simp
  next
    case (Some trip)
    then obtain g1 g2 rest where trip: "match_time (c # cs) = Some (g1, g2, rest)"
      by (cases trip) auto
    with "2.prems" obtain w r where
      w: "replace_time env g1 g2 = Some w" and
      r: "sub_time env rest = Some r" and t1: "t1 = w @ r"
      by (auto split: option.splits)
    from "2.IH"(2) [OF trip refl refl w "2.prems"(1) r] have tf: "time_free r" by simp
    have dw: "digit_free w" by (rule replace_time_digit_free [OF "2.prems"(1) w])
    have sp: "CHR '' '' \<in> set w" by (rule replace_time_has_space [OF w])
    have "mt (pre @ c # cs)" if "mt (pre @ w @ r)" for pre
    proof -
      from that obtain m where m: "match_string m" "prefix m (pre @ w @ r)"
        by (auto simp: mt_iff)
      from match_not_through [OF m dw sp] have "prefix m (pre @ c # cs)" by auto
      with m(1) show ?thesis by (auto simp: mt_iff)
    qed
    with digit_free_time_free_append [OF dw tf] t1 show ?thesis by simp
  qed
qed

lemma sub_time_stable:
  "digit_free_words env \<Longrightarrow> sub_time env t = Some t1 \<Longrightarrow> sub_time env t1 = Some t1"
  using sub_time_stable_aux time_free_sub_time by blast

lemma digit_free_sub_number: "digit_free s \<Longrightarrow> sub_number env s = Some s"
  by (induction s) auto

lemma replace_hyphen_idem: "replace_hyphen (replace_hyphen t) = replace_hyphen t"
  by (simp add: replace_hyphen_def)

text \<open>
  Claim C8 (idempotence). If \<open>num2words\<close> spells without digits, normalising a
  normalised text changes nothing. This holds on the \<open>except\<close> path as well: the text
  returned there has no time match left, and the number that made the callback raise
  makes it raise again.
\<close>

theorem normalize_idempotent:
  "digit_free_words env \<Longrightarrow> normalize_text env (normalize_text env t) = normalize_text env t"
proof -
  assume env: "digit_free_words env"
  show ?thesis
  proof (cases "sub_time env t")
    case None
    then show ?thesis by (simp add: normalize_text_def normalize_outcome_def)
  next
    case (Some t1)
    note t1 = this
    show ?thesis
    proof (cases "sub_number env t1")
      case None
      with t1 sub_time_stable [OF env t1] show ?thesis
        by (simp add: normalize_text_def normalize_outcome_def)
    next
      case (Some t2)
      let ?t3 = "replace_hyphen t2"
      have d: "digit_free ?t3"
        by (rule replace_hyphen_digit_free [OF sub_number_digit_free [OF env Some]])
      have "sub_time env ?t3 = Some ?t3"
        by (rule time_free_sub_time [OF digit_free_time_free [OF d]])
      moreover have "sub_number env ?t3 = Some ?t3" by (rule digit_free_sub_number [OF d])
      ultimately show ?thesis using t1 Some
        by (simp add: normalize_text_def normalize_outcome_def replace_hyphen_idem)
    qed
  qed
qed

section \<open>The English speller spells without digits\<close>

lemma scales_from_lower: "g \<in> set (scales_from b ws) \<Longrightarrow> b \<le> fst g"
proof (induction ws arbitrary: b)
  case Nil
  then show ?case by simp
next
  case (Cons w ws)
  from Cons.prems have "g = (b, w) \<or> g \<in> set (scales_from (1000 * b) ws)" by simp
  then show ?case
  proof
    assume "g = (b, w)" then show ?thesis by simp
  next
    assume "g \<in> set (scales_from (1000 * b) ws)"
    from Cons.IH [OF this] show ?thesis by simp
  qed
qed

lemma scales_from_words: "snd ` set (scales_from b ws) = set ws"
  by (induction ws arbitrary: b) auto

lemma scale_words_split:
  "scale_words =
     rev (scales_from 1000000 (rev (map (\<lambda>w. w @ ''illion'') high_numwords))) @
     [(1000, ''thousand'')]"
  by (simp add: scale_words_def)

lemma split_groups_skip:
  "\<forall>g\<in>set scs. n < fst g \<Longrightarrow>
   filter (\<lambda>g. 0 < fst g) (split_groups (scs @ rest) n) =
   filter (\<lambda>g. 0 < fst g) (split_groups rest n)"
  by (induction scs) auto

lemma num2words_en_small:
  assumes "n < 1000000"
  shows "num2words_en n =
    Some (join_groups (filter (\<lambda>g. 0 < fst g) (split_groups [(1000, ''thousand'')] n)))"
proof -
  have "\<forall>g\<in>set (rev (scales_from 1000000 (rev (map (\<lambda>w. w @ ''illion'') high_numwords)))).
          n < fst g"
    using assms scales_from_lower by fastforce
  from split_groups_skip [OF this] have
    "filter (\<lambda>g. 0 < fst g) (split_groups scale_words n) =
     filter (\<lambda>g. 0 < fst g) (split_groups [(1000, ''thousand'')] n)"
    by (simp only: scale_words_split)
  moreover have "n < 10 ^ 306" using assms by (rule less_trans) simp
  ultimately show ?thesis by (simp add: num2words_en_def)
qed

lemma low_numwords_digit_free: "k < 20 \<Longrightarrow> digit_free (low_numwords ! k)"
proof -
  have "list_all digit_free low_numwords"
    by (simp add: low_numwords_def is_digit_def)
  moreover assume "k < 20"
  ultimately show ?thesis by (simp add: list_all_length low_numwords_def)
qed

lemma tens_numwords_digit_free: "k < 10 \<Longrightarrow> digit_free (tens_numwords ! k)"
proof -
  have "list_all digit_free tens_numwords"
    by (simp add: tens_numwords_def is_digit_def)
  moreover assume "k < 10"
  ultimately show ?thesis by (simp add: list_all_length tens_numwords_def)
qed

lemma below_hundred_digit_free: "digit_free (below_hundred n)"
  by (simp add: below_hundred_def low_numwords_digit_free tens_numwords_digit_free)

lemma below_thousand_digit_free: "digit_free (below_thousand n)"
  by (simp add: below_thousand_def below_hundred_digit_free low_numwords_digit_free
      is_digit_def)

lemma high_numwords_digit_free: "w \<in> set high_numwords \<Longrightarrow> digit_free w"
  by (auto simp: high_numwords_def is_digit_def)

lemma scale_words_digit_free: "g \<in> set scale_words \<Longrightarrow> digit_free (snd g)"
proof -
  assume "g \<in> set scale_words"
  then have "snd g \<in> snd ` set (scales_from 1000
      (''thousand'' # rev (map (\<lambda>w. w @ ''illion'') high_numwords)))"
    by (auto simp: scale_words_def)
  then have "snd g = ''thousand'' \<or> (\<exists>w\<in>set high_numwords. snd g = w @ ''illion'')"
    unfolding scales_from_words by auto
  then show ?thesis
    using high_numwords_digit_free by (auto simp: is_digit_def)
qed

lemma split_groups_digit_free:
  "\<forall>g\<in>set scs. digit_free (snd g) \<Longrightarrow> g \<in> set (split_groups scs n) \<Longrightarrow>
   digit_free (snd g)"
  by (induction scs n rule: split_groups.induct) auto

lemma join_groups_digit_free:
  "\<forall>g\<in>set gs. digit_free (snd g) \<Longrightarrow> digit_free (join_groups gs)"
  by (induction gs rule: join_groups.induct)
     (auto simp: group_text_def group_sep_def below_thousand_digit_free is_digit_def)

lemma num2words_en_digit_free: "num2words_en n = Some w \<Longrightarrow> digit_free w"
proof -
  assume a: "num2words_en n = Some w"
  have "\<forall>g\<in>set (filter (\<lambda>g. 0 < fst g) (split_groups scale_words n)). digit_free (snd g)"
    using split_groups_digit_free [of scale_words _ n] scale_words_digit_free by auto
  from join_groups_digit_free [OF this] a show ?thesis
    by (auto simp: num2words_en_def split: if_splits)
qed

lemma en_env_digit_free: "digit_free_words en_env"
  by (simp add: digit_free_words_def en_env_def num2words_en_digit_free)

section \<open>The generator: cancellation and fallbacks\<close>




lemma fallback_defined:
  "build_prompt td = Inr p \<Longrightarrow>
   \<exists>tn dst. td ''train_number'' = Some tn \<and> td ''destination'' = Some dst \<and>
     fallback_sentence td =
       Inr (''Attention. Train '' @ py_str tn @ '' to '' @ py_str dst @ '' is delayed.'')"
  by (auto simp: build_prompt_def fallback_sentence_def bind_err_def lookup_def
      split: option.splits sum.splits)

lemma generate_unavailable:
  "\<not> llm \<and> \<not> load_model w \<Longrightarrow>
   generate_announcement w llm td cb =
     Inr \<lparr>result = ''System unavailable.'', llm_after = False, completions = 0,
          pulled = 0, checks = []\<rparr>"
  by (simp add: generate_announcement_def)

lemma generate_call_raises:
  "\<not> (\<not> llm \<and> \<not> load_model w) \<Longrightarrow> build_prompt td = Inr p \<Longrightarrow>
   create_chat_completion w p = CallRaises \<Longrightarrow> fallback_sentence td = Inr fb \<Longrightarrow>
   generate_announcement w llm td cb =
     Inr \<lparr>result = fb, llm_after = True, completions = 1, pulled = 0, checks = []\<rparr>"
  by (simp add: generate_announcement_def bind_err_def)

lemma generate_stream:
  "\<not> (\<not> llm \<and> \<not> load_model w) \<Longrightarrow> build_prompt td = Inr p \<Longrightarrow>
   create_chat_completion w p = Stream es \<Longrightarrow> fallback_sentence td = Inr fb \<Longrightarrow>
   consume cb es [] 0 [] = (e, n, chk) \<Longrightarrow>
   generate_announcement w llm td cb =
     Inr \<lparr>result = (case e of Finished full \<Rightarrow> py_strip full
                         | Interrupted \<Rightarrow> ''[Interrupted]'' | LoopRaised \<Rightarrow> fb),
          llm_after = True, completions = 1, pulled = n, checks = chk\<rparr>"
  by (cases e) (simp_all add: generate_announcement_def bind_err_def)

lemma generate_returns:
  assumes "build_prompt td = Inr p"
  shows "\<exists>out. generate_announcement w llm td cb = Inr out"
proof -
  from fallback_defined [OF assms] obtain fb where fb: "fallback_sentence td = Inr fb" by auto
  show ?thesis
  proof (cases "\<not> llm \<and> \<not> load_model w")
    case True
    from generate_unavailable [OF this] show ?thesis by blast
  next
    case False
    show ?thesis
    proof (cases "create_chat_completion w p")
      case CallRaises
      from generate_call_raises [OF False assms CallRaises fb] show ?thesis by blast
    next
      case (Stream es)
      obtain e n chk where c: "consume cb es [] 0 [] = (e, n, chk)"
        by (cases "consume cb es [] 0 []") auto
      from generate_stream [OF False assms Stream fb c] show ?thesis by blast
    qed
  qed
qed


text \<open>
  Claim C10 (the sentence of the \<open>except\<close> branch). With the model available and a
  record whose prompt can be built, whenever the streamed generation raises (the call
  itself, a pull, or the handling of a chunk) \<open>generate_announcement\<close> returns
  "Attention. Train <train_number> to <destination> is delayed." The delay of the record
  plays no part: the sentence is the same for a train that is on time.
\<close>

theorem generation_error_fallback:
  assumes "llm \<or> load_model w" and "build_prompt td = Inr p" and "stream_raises w cb p"
    and "td ''train_number'' = Some tn" and "td ''destination'' = Some dst"
  shows "\<exists>out. generate_announcement w llm td cb = Inr out \<and>
           result out = ''Attention. Train '' @ py_str tn @ '' to '' @ py_str dst @ '' is delayed.''"
proof -
  from assms(1) have av: "\<not> (\<not> llm \<and> \<not> load_model w)" by simp
  from fallback_defined [OF assms(2)] assms(4,5) have fb:
    "fallback_sentence td =
       Inr (''Attention. Train '' @ py_str tn @ '' to '' @ py_str dst @ '' is delayed.'')"
    by auto
  show ?thesis
  proof (cases "create_chat_completion w p")
    case CallRaises
    from generate_call_raises [OF av assms(2) CallRaises fb, of cb] show ?thesis by simp
  next
    case (Stream es)
    with assms(3) have "fst (consume cb es [] 0 []) = LoopRaised"
      by (simp add: stream_raises_def)
    then obtain n chk where c: "consume cb es [] 0 [] = (LoopRaised, n, chk)"
      by (cases "consume cb es [] 0 []") auto
    from generate_stream [OF av assms(2) Stream fb c] show ?thesis by simp
  qed
qed

text \<open>
  Claim C4, as the code has it (cancellation already requested). The callback is first
  consulted after the first chunk has been received. With the model available, a record
  whose prompt can be built and a stream that yields a first chunk, a callback that is
  already true makes \<open>generate_announcement\<close> return "[Interrupted]" after one call of
  \<open>create_chat_completion\<close> and exactly one chunk, whatever that chunk holds; no
  further chunk is received.
\<close>

theorem cancel_before_start_pulls_one_chunk:
  assumes "llm \<or> load_model w" and "build_prompt td = Inr p"
    and "create_chat_completion w p = Stream (Chunk c # es)" and "f 0"
  shows "generate_announcement w llm td (Some f) =
           Inr \<lparr>result = ''[Interrupted]'', llm_after = True, completions = 1, pulled = 1,
                checks = [True]\<rparr>"
  using assms by (auto simp: generate_announcement_def bind_err_def)

text \<open>
  Claim C2, as the code has it (backend that cannot be loaded). When the model is not
  loaded and \<open>load_model\<close> fails, \<open>generate_announcement\<close> returns the fixed sentence
  "System unavailable." for every record and every callback: it does not raise, it does
  not read the record and it makes no backend call. The sentence is not empty, and it
  names neither the train number nor the destination; the sentence that names them is
  the one of the \<open>except\<close> branch (claim C10).
\<close>

theorem unavailable_backend_sentence:
  assumes "\<not> llm" and "\<not> load_model w"
  shows "generate_announcement w llm td cb =
           Inr \<lparr>result = ''System unavailable.'', llm_after = False, completions = 0,
                pulled = 0, checks = []\<rparr>"
  using assms by (simp add: generate_announcement_def)

lemma demo_prompt:
  "build_prompt demo_record =
     Inr (''Data:'' @ nl @ ''Train Number: #2426'' @ nl @ ''Operator: Amtrak'' @ nl @
          ''Destination: Las Vegas'' @ nl @ ''Origin: Houston'' @ nl @ ''Time: 21:05'' @ nl @
          ''Platform: 3'' @ nl @ ''STATUS: ON TIME'' @ nl @ nl @
          ''Generate station announcement in English:'')"
  by (simp add: build_prompt_def bind_err_def lookup_def demo_record_def show_int_def
      digit_char_def)

theorem cancel_before_start_counterexample:
  "generate_announcement demo_llm True demo_record (Some always_stop) =
     Inr \<lparr>result = ''[Interrupted]'', llm_after = True, completions = 1, pulled = 1,
          checks = [True]\<rparr>"
  by (simp add: generate_announcement_def demo_prompt bind_err_def demo_llm_def
      demo_stream_def always_stop_def)

theorem unavailable_backend_counterexample:
  "generate_announcement absent_llm False demo_record None =
     Inr \<lparr>result = ''System unavailable.'', llm_after = False, completions = 0,
          pulled = 0, checks = []\<rparr> \<and>
   demo_record ''train_number'' = Some (PyStr ''#2426'') \<and>
   demo_record ''destination'' = Some (PyStr ''Las Vegas'') \<and>
   \<not> py_in ''#2426'' ''System unavailable.'' \<and>
   \<not> py_in ''Las Vegas'' ''System unavailable.''"
  by (simp add: generate_announcement_def absent_llm_def load_model_def demo_record_def)

section \<open>The engine and the batch\<close>

lemma speak_failure_skips:
  "synthesis_fails w text s \<Longrightarrow> device (speak w text blocking s) = device s"
  by (auto simp: synthesis_fails_def speak_def Let_def split: option.splits)

lemma announce_one_continues:
  assumes never: "\<forall>t. \<not> should_stop w t"
    and init: "llm_generator s = Some l" "tts_engine s = Some ts"
    and wf: "build_prompt td = Inr p"
  shows "\<exists>s' l' ts'. announce_one w k i td s = Inr s' \<and>
           llm_generator s' = Some l' \<and> tts_engine s' = Some ts' \<and>
           generated s' = generated s @ [i] \<and>
           map fst (spoken s') = map fst (spoken s) @ [i] \<and>
           statuses s' = statuses s @ [Generating i k, Speaking i k]"
proof -
  from generate_returns [OF wf] obtain out where
    "generate_announcement (llm_at w i) l td (Some (\<lambda>n. should_stop w (Suc (reads s) + n))) =
       Inr out"
    by blast
  with never init show ?thesis
    by (simp add: announce_one_def Let_def)
qed

lemma announce_loop_completes:
  assumes never: "\<forall>t. \<not> should_stop w t"
  shows "llm_generator s = Some l \<Longrightarrow> tts_engine s = Some ts \<Longrightarrow>
         \<forall>td\<in>set trains. \<exists>p. build_prompt td = Inr p \<Longrightarrow>
         \<exists>s'. announce_loop w k i trains s = Done s' \<and>
           generated s' = generated s @ [i..<i + length trains] \<and>
           map fst (spoken s') = map fst (spoken s) @ [i..<i + length trains] \<and>
           (trains \<noteq> [] \<longrightarrow> statuses s' \<noteq> [] \<and> last (statuses s') = Speaking (i + length trains - 1) k)"
proof (induction trains arbitrary: i s l ts)
  case Nil
  then show ?case by simp
next
  case (Cons td trains)
  from Cons.prems(3) obtain p where p: "build_prompt td = Inr p" by auto
  from announce_one_continues [OF never Cons.prems(1,2) p, of k i]
  obtain s1 l1 ts1 where s1: "announce_one w k i td s = Inr s1"
    "llm_generator s1 = Some l1" "tts_engine s1 = Some ts1"
    "generated s1 = generated s @ [i]" "map fst (spoken s1) = map fst (spoken s) @ [i]"
    "statuses s1 = statuses s @ [Generating i k, Speaking i k]"
    by blast
  from Cons.prems(3) have rest: "\<forall>td\<in>set trains. \<exists>p. build_prompt td = Inr p" by simp
  from Cons.IH [OF s1(2,3) rest, of "Suc i"]
  obtain s' where s': "announce_loop w k (Suc i) trains s1 = Done s'"
    "generated s' = generated s1 @ [Suc i..<Suc i + length trains]"
    "map fst (spoken s') = map fst (spoken s1) @ [Suc i..<Suc i + length trains]"
    "trains \<noteq> [] \<longrightarrow> statuses s' \<noteq> [] \<and> last (statuses s') = Speaking (Suc i + length trains - 1) k"
    by blast
  have u: "[i..<i + length (td # trains)] = i # [Suc i..<Suc i + length trains]"
    by (simp add: upt_rec)
  have "announce_loop w k i (td # trains) s = Done s'" using s1(1) s'(1) by simp
  moreover have "generated s' = generated s @ [i..<i + length (td # trains)]"
    using s1(4) s'(2) u by simp
  moreover have "map fst (spoken s') = map fst (spoken s) @ [i..<i + length (td # trains)]"
    using s1(5) s'(3) u by simp
  moreover have "statuses s' \<noteq> [] \<and> last (statuses s') = Speaking (i + length (td # trains) - 1) k"
  proof (cases trains)
    case Nil
    with s'(1) s1(6) show ?thesis by simp
  next
    case (Cons a list)
    with s'(4) show ?thesis by simp
  qed
  ultimately show ?case by blast
qed

lemma batch_completes:
  assumes never: "\<forall>t. \<not> should_stop w t"
    and init: "llm_generator s = Some l" "tts_engine s = Some ts"
    and wf: "\<forall>td\<in>set (take 3 trains). \<exists>p. build_prompt td = Inr p"
  shows "last (statuses (speak_thread w trains s)) = AllCompleted \<and>
         generated (speak_thread w trains s) =
           generated s @ [1..<Suc (length (take 3 trains))] \<and>
         map fst (spoken (speak_thread w trains s)) =
           map fst (spoken s) @ [1..<Suc (length (take 3 trains))]"
proof -
  from announce_loop_completes [OF never init wf, of "length (take 3 trains)" 1]
  obtain s' where "announce_loop w (length (take 3 trains)) 1 (take 3 trains) s = Done s'"
    "generated s' = generated s @ [1..<1 + length (take 3 trains)]"
    "map fst (spoken s') = map fst (spoken s) @ [1..<1 + length (take 3 trains)]"
    by blast
  with never show ?thesis by (simp add: speak_thread_def Let_def)
qed

text \<open>
  Claim C6, as the code has it (a failing engine does not end the batch). If the flag is
  never found set, both components exist and the prompt of each of the first three
  records can be built, then whatever the engine does on any record (model missing,
  synthesis or playback raising) every record is handed to the generator and to the
  engine, in order, and the batch ends with "All announcements completed"; a record on
  which synthesis fails leaves the sound device untouched. Besides cancellation, the
  batch is cut short only by an exception that reaches the handler of the thread.
\<close>

theorem tts_failure_does_not_abort:
  assumes "\<forall>t. \<not> should_stop w t"
    and "llm_generator s = Some l" and "tts_engine s = Some ts"
    and "\<forall>td\<in>set (take 3 trains). \<exists>p. build_prompt td = Inr p"
  shows "last (statuses (speak_thread w trains s)) = AllCompleted \<and>
         generated (speak_thread w trains s) =
           generated s @ [1..<Suc (length (take 3 trains))] \<and>
         map fst (spoken (speak_thread w trains s)) =
           map fst (spoken s) @ [1..<Suc (length (take 3 trains))] \<and>
         (synthesis_fails w' text ts' \<longrightarrow> device (speak w' text True ts') = device ts')"
  using batch_completes [OF assms] speak_failure_skips by blast

text \<open>
  Claim C5, as the code has it (how a batch ends). Every run of \<open>speak_thread\<close> ends:
  it clears \<open>is_speaking\<close>, and the last status message it sets names the terminal
  state and nothing else. Which message it is follows from how the loop was left: when
  an exception \<open>e\<close> reached the handler it is "Error: e"; otherwise it is "Stopped by
  user" when the flag is found set by the read made after the loop, and "All
  announcements completed" when that read finds it unset. None of the three carries a
  count of records or an index.
\<close>

theorem final_status_names_terminal_state:
  "statuses (speak_thread w trains s) \<noteq> [] \<and>
   \<not> is_speaking (speak_thread w trains s) \<and>
   last (statuses (speak_thread w trains s)) =
     (case announce_loop w (length (take 3 trains)) 1 (take 3 trains) s of
        Done s1 \<Rightarrow> if should_stop w (reads s1) then StoppedByUser else AllCompleted
      | Raised e s1 \<Rightarrow> ErrorStatus e) \<and>
   (last (statuses (speak_thread w trains s)) = StoppedByUser \<or>
    last (statuses (speak_thread w trains s)) = AllCompleted \<or>
    (\<exists>e. last (statuses (speak_thread w trains s)) = ErrorStatus e))"
  by (cases "announce_loop w (length (take 3 trains)) 1 (take 3 trains) s")
     (simp_all add: speak_thread_def Let_def)

text \<open>
  Claim C9 (\<open>stop\<close> while idle). While \<open>_playback_active\<close> is unset, \<open>stop\<close> leaves
  the engine as it is (no call reaches the sound device) and a following \<open>speak\<close>
  behaves as it would have without it. From any state, a second \<open>stop\<close> changes nothing.
\<close>

theorem stop_idle_noop:
  "(\<not> playback_active s \<longrightarrow>
      stop s = s \<and> speak w text blocking (stop s) = speak w text blocking s) \<and>
   stop (stop s) = stop s"
  by (simp add: stop_def)

theorem stop_idle_noop_witness:
  "\<not> playback_active idle_tts \<and> stop idle_tts = idle_tts \<and>
   speak demo_tts ''Train 2426'' True (stop idle_tts) = speak demo_tts ''Train 2426'' True idle_tts \<and>
   stop (stop idle_tts) = stop idle_tts"
  using stop_idle_noop [of idle_tts demo_tts "''Train 2426''" True]
  by (simp add: idle_tts_def)

theorem abort_without_cancel_counterexample:
  "never_stop 0 = False \<and>
   statuses (speak_thread (demo_batch never_stop) demo_trains early_app) =
     [Generating 1 3, ErrorStatus AttributeError] \<and>
   generated (speak_thread (demo_batch never_stop) demo_trains early_app) = []"
  by (simp add: speak_thread_def Let_def demo_trains_def announce_one_def early_app_def
      demo_batch_def never_stop_def)

section \<open>Concrete runs\<close>

lemma demo_generate_uncancelled:
  assumes "\<forall>n<4. \<not> f n"
  shows "generate_announcement demo_llm True demo_record (Some f) =
           Inr \<lparr>result = ''Attention please.'', llm_after = True, completions = 1,
                pulled = 4, checks = [False, False, False, False]\<rparr>"
proof -
  from assms have "\<not> f 0" "\<not> f (Suc 0)" "\<not> f (Suc (Suc 0))" "\<not> f (Suc (Suc (Suc 0)))"
    by simp_all
  then show ?thesis
    by (simp add: generate_announcement_def demo_prompt bind_err_def demo_llm_def
        demo_stream_def py_strip_def is_space_def)
qed

lemma demo_speak:
  "speak demo_tts ''Attention please.'' True idle_tts =
     \<lparr>model = True, playback_active = False,
      device = [SdPlay silence sample_rate, SdWait]\<rparr>"
  by (simp add: speak_def demo_tts_def idle_tts_def Let_def)

lemma demo_batch_flag: "should_stop (demo_batch flag) = flag"
  by (simp add: demo_batch_def)

lemma demo_first_record_then_stop:
  "announce_one (demo_batch (stop_from 6)) k (Suc 0) demo_record demo_app =
     Inl (Done \<lparr>llm_generator = Some True,
                tts_engine = Some \<lparr>model = True, playback_active = False,
                                    device = [SdPlay silence sample_rate, SdWait]\<rparr>,
                is_speaking = True, reads = 7,
                statuses = [Generating (Suc 0) k, Speaking (Suc 0) k],
                announcements = [''Attention please.''], generated = [Suc 0],
                spoken = [(Suc 0, ''Attention please.'')], sleeps = 0\<rparr>)"
  unfolding announce_one_def demo_batch_def demo_app_def
  by (simp add: Let_def demo_generate_uncancelled demo_speak
      stop_from_def)

lemma runB:
  "statuses (speak_thread (demo_batch (stop_from 6)) demo_trains demo_app) =
     [Generating 1 3, Speaking 1 3, StoppedByUser] \<and>
   spoken (speak_thread (demo_batch (stop_from 6)) demo_trains demo_app) =
     [(1, ''Attention please.'')]"
  by (simp add: speak_thread_def Let_def demo_trains_def demo_first_record_then_stop
      demo_batch_flag stop_from_def)

lemma runA:
  "statuses (speak_thread (demo_batch always_stop) demo_trains demo_app) = [StoppedByUser] \<and>
   spoken (speak_thread (demo_batch always_stop) demo_trains demo_app) = []"
  by (simp add: speak_thread_def Let_def demo_trains_def announce_one_def demo_app_def
      demo_batch_def always_stop_def)

lemmas en_eval =
  num2words_en_small group_text_def group_sep_def below_thousand_def
  below_hundred_def low_numwords_def tens_numwords_def en_env_def
  normalize_text_def normalize_outcome_def replace_time_def replace_number_def
  py_int_def digits_value_def digit_val_def is_digit_def replace_hyphen_def

lemma demo_normalize_outcome:
  "normalize_outcome en_env ''Train 2426 departs 21:05'' =
     Normalized ''Train two thousand, four hundred and twenty six departs twenty one five''"
  by (simp add: en_eval)

lemma demo_normalize_colon: "normalize_text en_env ''Platform: 3'' = ''Platform: three''"
  by (simp add: en_eval)

theorem normalize_no_digit_witness:
  "digit_free_words en_env \<and>
   normalize_outcome en_env ''Train 2426 departs 21:05'' =
     Normalized ''Train two thousand, four hundred and twenty six departs twenty one five'' \<and>
   \<not> list_ex is_digit (normalize_text en_env ''Train 2426 departs 21:05'')"
  using normalize_no_digit [OF en_env_digit_free demo_normalize_outcome]
    en_env_digit_free demo_normalize_outcome
  by simp

theorem colon_survives_counterexample:
  "CHR '':'' \<in> set (normalize_text en_env ''Platform: 3'')"
  by (simp add: demo_normalize_colon)

theorem normalize_idempotent_witness:
  "digit_free_words en_env \<and>
   normalize_text en_env (normalize_text en_env ''Train 2426 departs 21:05'') =
     normalize_text en_env ''Train 2426 departs 21:05''"
  using normalize_idempotent [OF en_env_digit_free, of "''Train 2426 departs 21:05''"]
    en_env_digit_free
  by simp



theorem unavailable_backend_sentence_witness:
  "\<not> False \<and> \<not> load_model absent_llm \<and>
   generate_announcement absent_llm False demo_record (Some never_stop) =
     Inr \<lparr>result = ''System unavailable.'', llm_after = False, completions = 0,
          pulled = 0, checks = []\<rparr>"
  using unavailable_backend_sentence [of False absent_llm demo_record "Some never_stop"]
  by (simp add: load_model_def absent_llm_def)

theorem cancel_before_start_pulls_one_chunk_witness:
  "(True \<or> load_model demo_llm) \<and>
   create_chat_completion demo_llm '''' = Stream demo_stream \<and>
   always_stop 0 \<and>
   generate_announcement demo_llm True demo_record (Some always_stop) =
     Inr \<lparr>result = ''[Interrupted]'', llm_after = True, completions = 1, pulled = 1,
          checks = [True]\<rparr>"
proof -
  have a: "True \<or> load_model demo_llm" by simp
  have s: "create_chat_completion demo_llm p = Stream (Chunk (Delta None) #
      [Chunk (Delta (Some ''Attention '')), Chunk (Delta (Some ''please. '')),
       Chunk (Delta None)])" for p
    by (simp add: demo_llm_def demo_stream_def)
  have f: "always_stop 0" by (simp add: always_stop_def)
  from cancel_before_start_pulls_one_chunk [where f = always_stop, OF a demo_prompt s f] f
  show ?thesis
    by (simp add: demo_llm_def)
qed

theorem generation_error_fallback_witness:
  "demo_record ''delay_minutes'' = Some (PyInt 0) \<and>
   stream_raises failing_llm (Some never_stop) '''' \<and>
   (\<exists>out. generate_announcement failing_llm True demo_record (Some never_stop) = Inr out \<and>
      result out = ''Attention. Train #2426 to Las Vegas is delayed.'')"
proof -
  have a: "True \<or> load_model failing_llm" by simp
  have r: "stream_raises failing_llm (Some never_stop) p" for p
    by (simp add: stream_raises_def failing_llm_def)
  have tn: "demo_record ''train_number'' = Some (PyStr ''#2426'')"
    and dst: "demo_record ''destination'' = Some (PyStr ''Las Vegas'')"
    and dl: "demo_record ''delay_minutes'' = Some (PyInt 0)"
    by (simp_all add: demo_record_def)
  from generation_error_fallback [OF a demo_prompt r tn dst] r dl show ?thesis by simp
qed

theorem tts_failure_does_not_abort_witness:
  "(\<forall>t. \<not> should_stop (demo_batch never_stop) t) \<and>
   llm_generator demo_app = Some True \<and> tts_engine demo_app = Some idle_tts \<and>
   take 3 demo_trains = [demo_record, demo_record, demo_record] \<and>
   (\<exists>p. build_prompt demo_record = Inr p) \<and>
   synthesis_fails mute_tts ''Attention please.'' idle_tts \<and>
   last (statuses (speak_thread (demo_batch never_stop) demo_trains demo_app)) = AllCompleted \<and>
   generated (speak_thread (demo_batch never_stop) demo_trains demo_app) = [1, 2, 3] \<and>
   map fst (spoken (speak_thread (demo_batch never_stop) demo_trains demo_app)) = [1, 2, 3] \<and>
   device (speak mute_tts ''Attention please.'' True idle_tts) = device idle_tts"
proof -
  have h1: "\<forall>t. \<not> should_stop (demo_batch never_stop) t"
    by (simp add: demo_batch_flag never_stop_def)
  have h2: "llm_generator demo_app = Some True" and h3: "tts_engine demo_app = Some idle_tts"
    by (simp_all add: demo_app_def)
  have h4: "\<forall>td\<in>set (take 3 demo_trains). \<exists>p. build_prompt td = Inr p"
    using demo_prompt by (auto simp: demo_trains_def)
  have h5: "synthesis_fails mute_tts ''Attention please.'' idle_tts"
    by (simp add: synthesis_fails_def mute_tts_def)
  have g: "generated demo_app = []" and sp: "spoken demo_app = []"
    by (simp_all add: demo_app_def)
  have u: "[1..<Suc (length (take 3 demo_trains))] = [1, 2, 3]"
    by (simp add: demo_trains_def upt_rec)
  note tts_failure_does_not_abort
    [OF h1 h2 h3 h4, of mute_tts "''Attention please.''" idle_tts, unfolded u g sp]
  moreover have "take 3 demo_trains = [demo_record, demo_record, demo_record]"
    by (simp add: demo_trains_def)
  moreover have "\<exists>p. build_prompt demo_record = Inr p"
    using demo_prompt by blast
  ultimately show ?thesis using h1 h2 h3 h5
    by simp
qed

theorem final_status_no_count_counterexample:
  "last (statuses (speak_thread (demo_batch always_stop) demo_trains demo_app)) = StoppedByUser \<and>
   last (statuses (speak_thread (demo_batch (stop_from 6)) demo_trains demo_app)) = StoppedByUser \<and>
   spoken (speak_thread (demo_batch always_stop) demo_trains demo_app) = [] \<and>
   spoken (speak_thread (demo_batch (stop_from 6)) demo_trains demo_app) =
     [(1, ''Attention please.'')]"
  using runA runB by simp

section \<open>The normaliser against the rewrites of the specification\<close>

lemma spec_times_skip: "spec_times ws env k s = spec_times ws env 0 (drop k s)"
proof (induction s arbitrary: k)
  case Nil
  then show ?case by simp
next
  case (Cons c cs)
  show ?case
  proof (cases k)
    case 0
    then show ?thesis by simp
  next
    case (Suc j)
    with Cons.IH [of j] show ?thesis by simp
  qed
qed

lemma replace_time_spell:
  "replace_time env g1 g2 =
     (case (spell env g1, spell env g2) of
        (Some hw, Some mw) \<Rightarrow> Some (hw @ '' '' @ mw)
      | _ \<Rightarrow> None)"
  by (auto simp: replace_time_def spell_def split: option.splits bind_splits)

lemma replace_number_spell: "replace_number env g = spell env g"
  by (simp add: replace_number_def spell_def split: option.splits)

lemma match_time_time_at:
  "match_time s = Some (g1, g2, rest) \<Longrightarrow>
   time_at [2, 1] s = Some (length g1) \<and> g1 = take (length g1) s \<and>
   g2 = take 2 (drop (Suc (length g1)) s) \<and> rest = drop (length g1 + 3) s"
  by (induction s rule: match_time.induct) (auto simp: time_at_def split: if_splits)

lemma no_match_time_at: "match_time s = None \<Longrightarrow> time_at [2, 1] s = None"
  by (induction s rule: match_time.induct) (auto simp: time_at_def split: if_splits)

lemma sub_time_spec: "sub_time env s = spec_times [2, 1] env 0 s"
proof (induction env s rule: sub_time.induct)
  case (1 env)
  show ?case by simp
next
  case (2 env c cs)
  show ?case
  proof (cases "match_time (c # cs)")
    case None
    with "2.IH"(1) no_match_time_at [OF None] show ?thesis by simp
  next
    case (Some trip)
    then obtain g1 g2 rest where m: "match_time (c # cs) = Some (g1, g2, rest)"
      by (cases trip) auto
    from match_time_time_at [OF m] have t: "time_at [2, 1] (c # cs) = Some (length g1)"
      and g1: "take (length g1) (c # cs) = g1"
      and g2: "take 2 (drop (Suc (length g1)) (c # cs)) = g2"
      and rest3: "rest = drop (length g1 + 3) (c # cs)"
      by simp_all
    have "length g1 + 3 = Suc (length g1 + 2)" by simp
    with rest3 have rest: "rest = drop (length g1 + 2) cs" by (simp only: drop_Suc_Cons)
    have sk: "spec_times [2, 1] env (length g1 + 2) cs = spec_times [2, 1] env 0 rest"
      unfolding rest by (rule spec_times_skip)
    show ?thesis
    proof (cases "replace_time env g1 g2")
      case None
      with m t g1 g2 show ?thesis
        by (simp add: replace_time_spell split: option.splits prod.splits)
    next
      case (Some w)
      with m t g1 g2 sk "2.IH"(2) [OF m refl refl Some] show ?thesis
        by (simp add: replace_time_spell split: option.splits prod.splits)
    qed
  qed
qed

lemma digit_runs_other: "\<not> is_digit c \<Longrightarrow> digit_runs (c # cs) = [c] # digit_runs cs"
  by (simp split: list.splits)

lemma digit_runs_digit:
  "is_digit c \<Longrightarrow>
   digit_runs (c # cs) = (c # takeWhile is_digit cs) # digit_runs (dropWhile is_digit cs)"
proof (induction cs arbitrary: c)
  case Nil
  then show ?case by simp
next
  case (Cons x xs)
  show ?case
  proof (cases "is_digit x")
    case True
    have "list_all is_digit (x # takeWhile is_digit xs)"
      using True by (auto simp: list_all_iff dest: set_takeWhileD)
    with Cons.IH [OF True] Cons.prems True show ?thesis by simp
  next
    case False
    with digit_runs_other [OF False, of xs] Cons.prems show ?thesis by simp
  qed
qed

lemma sub_number_spec: "sub_number env s = spec_numbers env s"
proof (induction env s rule: sub_number.induct)
  case (1 env)
  show ?case by (simp add: spec_numbers_def)
next
  case (2 env c cs)
  show ?case
  proof (cases "is_digit c")
    case True
    have a: "list_all is_digit (c # takeWhile is_digit cs)"
      using True by (auto simp: list_all_iff dest: set_takeWhileD)
    show ?thesis
    proof (cases "replace_number env (c # takeWhile is_digit cs)")
      case None
      with True a show ?thesis
        by (simp add: spec_numbers_def digit_runs_digit replace_number_spell
            del: digit_runs.simps)
    next
      case (Some w)
      with True a "2.IH"(1) [OF True Some] show ?thesis
        by (simp add: spec_numbers_def digit_runs_digit replace_number_spell
            option.map_comp comp_def del: digit_runs.simps split: option.splits)
    qed
  next
    case False
    with "2.IH"(2) [OF False] show ?thesis
      by (simp add: spec_numbers_def digit_runs_other option.map_comp comp_def
          del: digit_runs.simps split: option.splits)
  qed
qed

lemma replace_hyphen_spec: "replace_hyphen = spec_hyphens"
  by (rule ext) (simp add: replace_hyphen_def spec_hyphens_def)

lemma normalized_spec: "normalized env t = spec_normalize [2, 1] env t"
  by (simp add: normalized_def normalize_outcome_def spec_normalize_def sub_time_spec
      sub_number_spec replace_hyphen_spec split: option.splits)

lemma demo_normalize_time: "normalize_text en_env ''at 9:05'' = ''at nine five''"
  by (simp add: en_eval)

text \<open>
  Claim C7, as the code has it (the rewrites and their order). Whenever the \<open>try\<close>
  block completes, its result is that of three rewrites applied in this order: (1) from
  the left and without overlap, every time written as one or two digits, a colon and two
  digits (\<open>H:MM\<close> as well as \<open>HH:MM\<close>) becomes the spelled hour, a space and the spelled
  minute; (2) every maximal run of digits that is left becomes its spelled number;
  (3) every hyphen becomes a space. When a callback raises, neither side gives a
  normalised text. In particular "Train 2426 departs 21:05" has the train number and the
  time spelled out, and no hyphen.
\<close>

theorem normalize_is_three_rewrites:
  "normalized env t = spec_normalize [2, 1] env t \<and>
   normalize_text en_env ''Train 2426 departs 21:05'' =
     ''Train two thousand, four hundred and twenty six departs twenty one five'' \<and>
   CHR ''-'' \<notin> set (normalize_text en_env ''Train 2426 departs 21:05'')"
proof -
  have "normalize_text en_env ''Train 2426 departs 21:05'' =
     ''Train two thousand, four hundred and twenty six departs twenty one five''"
    by (simp add: normalize_text_def demo_normalize_outcome)
  then show ?thesis by (simp add: normalized_spec)
qed

lemma demo_spec_two_digit_hour: "spec_normalize [2] en_env ''at 9:05'' = Some ''at nine:five''"
  by (simp add: spec_normalize_def time_at_def spec_numbers_def spell_def spec_hyphens_def
      num2words_en_small group_text_def group_sep_def below_thousand_def below_hundred_def
      low_numwords_def tens_numwords_def en_env_def py_int_def digits_value_def
      digit_val_def is_digit_def)

theorem two_digit_hour_counterexample:
  "normalized en_env ''at 9:05'' = Some ''at nine five'' \<and>
   spec_normalize [2] en_env ''at 9:05'' = Some ''at nine:five''"
proof -
  have "normalize_outcome en_env ''at 9:05'' = Normalized ''at nine five''"
    by (simp add: en_eval)
  then show ?thesis by (simp add: normalized_def demo_spec_two_digit_hour)
qed

end
